theory Spec2Isabelle
  imports Main
begin

section \<open>The tape (src/mtm/tape.py)\<close>

text \<open>
  A symbol is a Python \<open>str\<close>; a tape is the object with the fields \<open>blank\<close>,
  \<open>cells\<close> (a dict from position to symbol) and \<open>head\<close>. Mutating methods
  return the updated tape. The methods carry the class name (\<open>Tape_write\<close> is
  \<open>Tape.write\<close>), the constructor is \<open>Tape_init\<close>.
\<close>

type_synonym symbol = string

record tape =
  blank :: symbol
  cells :: "int \<rightharpoonup> symbol"
  head :: int

text \<open>The loop \<open>for i, ch in enumerate(initial_input): self.cells[i] = ch\<close>.\<close>

primrec fill_cells :: "int \<Rightarrow> string \<Rightarrow> (int \<rightharpoonup> symbol) \<Rightarrow> (int \<rightharpoonup> symbol)" where
  "fill_cells i [] c = c"
| "fill_cells i (ch # rest) c = fill_cells (i + 1) rest (c(i \<mapsto> [ch]))"

definition Tape_init :: "symbol \<Rightarrow> string \<Rightarrow> tape" where
  "Tape_init b initial_input =
     \<lparr>tape.blank = b, cells = fill_cells 0 initial_input Map.empty, head = 0\<rparr>"

definition Tape_read :: "tape \<Rightarrow> symbol" where
  "Tape_read t = (case cells t (head t) of None \<Rightarrow> tape.blank t | Some s \<Rightarrow> s)"

definition Tape_write :: "tape \<Rightarrow> symbol \<Rightarrow> tape" where
  "Tape_write t symbol =
     (if symbol = tape.blank t \<and> cells t (head t) \<noteq> None
      then t\<lparr>cells := (cells t)(head t := None)\<rparr>
      else t\<lparr>cells := (cells t)(head t \<mapsto> symbol)\<rparr>)"

definition Tape_move :: "tape \<Rightarrow> int \<Rightarrow> tape" where
  "Tape_move t direction = t\<lparr>head := head t + direction\<rparr>"

section \<open>The machine (src/mtm/machine.py)\<close>

text \<open>
  A state is any hashable value (the type variable \<open>'q\<close>); a tuple of symbols or of
  moves is a list; the transition table is a dict, read only by key.
\<close>

datatype status = RUNNING | ACCEPT | REJECT | HALT

datatype error = ValueError

type_synonym 'q transition_key = "'q \<times> symbol list"
type_synonym 'q transition_value = "'q \<times> symbol list \<times> int list"

record 'q machine =
  states :: "'q set"
  input_alphabet :: "symbol set"
  tape_alphabet :: "symbol set"
  blank :: symbol
  transitions :: "'q transition_key \<rightharpoonup> 'q transition_value"
  start_state :: 'q
  accept_states :: "'q set"
  reject_states :: "'q set"
  num_tapes :: int
  tapes :: "tape list"
  current_state :: 'q
  step_count :: int

text \<open>
  The constructor. The iterables become sets with \<open>set\<close>; \<open>reject_states\<close> and
  \<open>initial_inputs\<close> may be \<open>None\<close>. \<open>[""] * num_tapes\<close> is the empty list for a
  negative \<open>num_tapes\<close>. The raise is the result \<open>Inl ValueError\<close>.
\<close>

definition MTM_init ::
  "'q list \<Rightarrow> symbol list \<Rightarrow> symbol list \<Rightarrow> symbol \<Rightarrow>
   ('q transition_key \<rightharpoonup> 'q transition_value) \<Rightarrow> 'q \<Rightarrow> 'q list \<Rightarrow> 'q list option \<Rightarrow>
   int \<Rightarrow> string list option \<Rightarrow> error + 'q machine" where
  "MTM_init sts ia ta b tr q0 acc rej k initial_inputs =
     (let inputs = (case initial_inputs of None \<Rightarrow> replicate (nat k) [] | Some xs \<Rightarrow> xs)
      in if int (length inputs) \<noteq> k then Inl ValueError
         else Inr \<lparr>states = set sts, input_alphabet = set ia, tape_alphabet = set ta,
                   machine.blank = b, transitions = tr, start_state = q0,
                   accept_states = set acc,
                   reject_states = set (case rej of None \<Rightarrow> [] | Some r \<Rightarrow> r),
                   num_tapes = k,
                   tapes = map (\<lambda>i. Tape_init b (inputs ! i)) [0 ..< nat k],
                   current_state = q0, step_count = 0\<rparr>)"

text \<open>
  \<open>reset\<close> mutates the machine and may raise: the result is the exception raised, if
  any, together with the machine as the call leaves it.
\<close>

definition reset :: "'q machine \<Rightarrow> string list option \<Rightarrow> error option \<times> 'q machine" where
  "reset m initial_inputs =
     (let inputs = (case initial_inputs of
                      None \<Rightarrow> map (\<lambda>_. []) [0 ..< nat (num_tapes m)]
                    | Some xs \<Rightarrow> xs)
      in if int (length inputs) \<noteq> num_tapes m then (Some ValueError, m)
         else (None, m\<lparr>tapes := map (Tape_init (machine.blank m)) inputs,
                         current_state := start_state m,
                         step_count := 0\<rparr>))"

text \<open>
  The two loops of \<open>step\<close> over \<open>zip(self.tapes, write_symbols)\<close> and
  \<open>zip(self.tapes, moves)\<close>: \<open>zip\<close> stops at the shorter sequence.
\<close>

fun write_all :: "tape list \<Rightarrow> symbol list \<Rightarrow> tape list" where
  "write_all (t # ts) (w # ws) = Tape_write t w # write_all ts ws"
| "write_all ts ws = ts"

fun move_all :: "tape list \<Rightarrow> int list \<Rightarrow> tape list" where
  "move_all (t # ts) (mv # mvs) = Tape_move t mv # move_all ts mvs"
| "move_all ts mvs = ts"

definition step :: "'q machine \<Rightarrow> status \<times> 'q machine" where
  "step m =
     (let read_symbols = map Tape_read (tapes m);
          key = (current_state m, read_symbols)
      in case transitions m key of
           None \<Rightarrow>
             (if current_state m \<in> accept_states m then (ACCEPT, m)
              else if current_state m \<in> reject_states m then (REJECT, m)
              else (HALT, m))
         | Some (new_state, write_symbols, moves) \<Rightarrow>
             (let m' = m\<lparr>tapes := move_all (write_all (tapes m) write_symbols) moves,
                            current_state := new_state,
                            step_count := step_count m + 1\<rparr>
              in if current_state m' \<in> accept_states m' then (ACCEPT, m')
                 else if current_state m' \<in> reject_states m' then (REJECT, m')
                 else (RUNNING, m')))"

text \<open>
  The loop of \<open>run\<close>: \<open>while status == "RUNNING" and self.step_count < max_steps\<close>.
  It ends because a step that returns RUNNING has incremented \<open>step_count\<close>:
  the budget left, \<open>max_steps - step_count\<close>, decreases, and a status other than
  RUNNING ends the loop at the next test.
\<close>

function run_loop :: "status \<Rightarrow> 'q machine \<Rightarrow> int \<Rightarrow> status \<times> 'q machine" where
  "run_loop st m max_steps =
     (if st = RUNNING \<and> step_count m < max_steps
      then run_loop (fst (step m)) (snd (step m)) max_steps
      else (st, m))"
  by pat_completeness auto
termination
  by (relation "measures [\<lambda>(st, m, n). if st = RUNNING then 1 else 0,
                          \<lambda>(st, m, n). nat (n - step_count m)]")
     (auto simp: step_def Let_def split: option.splits prod.splits if_splits)

declare run_loop.simps [simp del]

definition run :: "'q machine \<Rightarrow> int \<Rightarrow> status \<times> 'q machine" where
  "run m max_steps = run_loop RUNNING m max_steps"

section \<open>Configurations reached by stepping\<close>

text \<open>
  \<open>after_steps j m\<close> is the machine after \<open>j\<close> calls of \<open>step\<close>;
  \<open>continues m\<close> says that the next \<open>step\<close> finds a transition for its key whose
  new state is neither accepting nor rejecting.
\<close>

primrec after_steps :: "nat \<Rightarrow> 'q machine \<Rightarrow> 'q machine" where
  "after_steps 0 m = m"
| "after_steps (Suc j) m = after_steps j (snd (step m))"

definition continues :: "'q machine \<Rightarrow> bool" where
  "continues m =
     (case transitions m (current_state m, map Tape_read (tapes m)) of
        None \<Rightarrow> False
      | Some (new_state, write_symbols, moves) \<Rightarrow>
          new_state \<notin> accept_states m \<and> new_state \<notin> reject_states m)"

section \<open>Example machines\<close>

text \<open>
  The unary machine of the first scenario: one state \<open>q0\<close>, start and accepting, moving
  right over \<open>1\<close>, with no transition on blank; its input is \<open>111\<close>.
\<close>

definition unary_transitions :: "string transition_key \<rightharpoonup> string transition_value" where
  "unary_transitions = [(''q0'', [''1'']) \<mapsto> (''q0'', [''1''], [1])]"

definition unary_machine :: "string machine" where
  "unary_machine =
     \<lparr>states = {''q0''}, input_alphabet = {''1''}, tape_alphabet = {''1'', ''_''},
      machine.blank = ''_'', transitions = unary_transitions,
      start_state = ''q0'', accept_states = {''q0''}, reject_states = {},
      num_tapes = 1, tapes = [Tape_init ''_'' ''111''],
      current_state = ''q0'', step_count = 0\<rparr>"

text \<open>A machine with no transition at all, its start state in neither special set.\<close>

definition halt_machine :: "string machine" where
  "halt_machine =
     \<lparr>states = {''q0''}, input_alphabet = {''1''}, tape_alphabet = {''1'', ''_''},
      machine.blank = ''_'', transitions = Map.empty,
      start_state = ''q0'', accept_states = {}, reject_states = {},
      num_tapes = 1, tapes = [Tape_init ''_'' []],
      current_state = ''q0'', step_count = 0\<rparr>"

text \<open>
  A machine whose state \<open>qx\<close> is both accepting and rejecting: \<open>q0\<close> moves to
  \<open>qx\<close> on \<open>1\<close>, and \<open>qx\<close> has no transition.
\<close>

definition both_machine :: "string machine" where
  "both_machine =
     \<lparr>states = {''q0'', ''qx''}, input_alphabet = {''1''}, tape_alphabet = {''1'', ''_''},
      machine.blank = ''_'',
      transitions = [(''q0'', [''1'']) \<mapsto> (''qx'', [''1''], [1])],
      start_state = ''q0'', accept_states = {''qx''}, reject_states = {''qx''},
      num_tapes = 1, tapes = [Tape_init ''_'' ''1''],
      current_state = ''q0'', step_count = 0\<rparr>"

text \<open>A machine that stays on the same cell in the same state for ever.\<close>

definition loop_transitions :: "string transition_key \<rightharpoonup> string transition_value" where
  "loop_transitions = [(''q0'', [''1'']) \<mapsto> (''q0'', [''1''], [0])]"

definition loop_machine :: "string machine" where
  "loop_machine =
     \<lparr>states = {''q0''}, input_alphabet = {''1''}, tape_alphabet = {''1'', ''_''},
      machine.blank = ''_'', transitions = loop_transitions,
      start_state = ''q0'', accept_states = {}, reject_states = {},
      num_tapes = 1, tapes = [Tape_init ''_'' ''1''],
      current_state = ''q0'', step_count = 0\<rparr>"

text \<open>
  A two-tape machine whose only transition has a write tuple and a move tuple of
  length one.
\<close>

definition short_machine :: "string machine" where
  "short_machine =
     \<lparr>states = {''q0'', ''q1''}, input_alphabet = {''a'', ''b''},
      tape_alphabet = {''a'', ''b'', ''_''}, machine.blank = ''_'',
      transitions = [(''q0'', [''a'', ''b'']) \<mapsto> (''q1'', [''b''], [1])],
      start_state = ''q0'', accept_states = {}, reject_states = {},
      num_tapes = 2, tapes = [Tape_init ''_'' ''a'', Tape_init ''_'' ''b''],
      current_state = ''q0'', step_count = 0\<rparr>"

section \<open>Auxiliary facts\<close>

lemma run_loop_halted: "st \<noteq> RUNNING \<Longrightarrow> run_loop st m n = (st, m)"
  by (subst run_loop.simps) simp

lemma run_loop_budget: "\<not> step_count m < n \<Longrightarrow> run_loop st m n = (st, m)"
  by (subst run_loop.simps) simp

lemma run_loop_go:
  "step_count m < n \<Longrightarrow> run_loop RUNNING m n = run_loop (fst (step m)) (snd (step m)) n"
  by (subst run_loop.simps) simp

lemma length_write_all: "length (write_all ts ws) = length ts"
  by (induction ts ws rule: write_all.induct) simp_all

lemma length_move_all: "length (move_all ts mvs) = length ts"
  by (induction ts mvs rule: move_all.induct) simp_all

lemma nth_write_all:
  "i < length ts \<Longrightarrow>
   write_all ts ws ! i = (if i < length ws then Tape_write (ts ! i) (ws ! i) else ts ! i)"
proof (induction ts ws arbitrary: i rule: write_all.induct)
  case (1 t ts w ws)
  then show ?case by (cases i) simp_all
qed simp_all

lemma nth_move_all:
  "i < length ts \<Longrightarrow>
   move_all ts mvs ! i = (if i < length mvs then Tape_move (ts ! i) (mvs ! i) else ts ! i)"
proof (induction ts mvs arbitrary: i rule: move_all.induct)
  case (1 t ts mv mvs)
  then show ?case by (cases i) simp_all
qed simp_all

text \<open>The cells of a fresh tape: character \<open>p\<close> of the input at position \<open>p\<close>.\<close>

lemma fill_cells_lookup:
  "fill_cells i s c p =
     (if i \<le> p \<and> p < i + int (length s) then Some [s ! nat (p - i)] else c p)"
proof (induction s arbitrary: i c)
  case Nil
  then show ?case by auto
next
  case (Cons ch rest)
  have "fill_cells i (ch # rest) c p = fill_cells (i + 1) rest (c(i \<mapsto> [ch])) p"
    by simp
  also have "\<dots> = (if i + 1 \<le> p \<and> p < i + 1 + int (length rest)
                    then Some [rest ! nat (p - (i + 1))] else (c(i \<mapsto> [ch])) p)"
    by (rule Cons.IH)
  also have "\<dots> = (if i \<le> p \<and> p < i + int (length (ch # rest))
                    then Some [(ch # rest) ! nat (p - i)] else c p)"
  proof (cases "p = i")
    case True
    then show ?thesis by simp
  next
    case False
    have "i + 1 \<le> p \<Longrightarrow> nat (p - i) = Suc (nat (p - (i + 1)))"
      by simp
    with False show ?thesis by auto
  qed
  finally show ?case .
qed

lemma unary_construction:
  "MTM_init [''q0''] [''1''] [''1'', ''_''] ''_'' unary_transitions ''q0'' [''q0''] None 1
     (Some [''111'']) = Inr unary_machine"
  by (simp add: MTM_init_def unary_machine_def)

lemma unary_step:
  "fst (step unary_machine) = ACCEPT \<and> step_count (snd (step unary_machine)) = 1"
  by (simp add: step_def unary_machine_def unary_transitions_def Tape_init_def Tape_read_def
      Let_def)

lemma unary_run:
  "fst (run unary_machine 10) = ACCEPT \<and> step_count (snd (run unary_machine 10)) = 1"
proof -
  have "step_count unary_machine < 10"
    by (simp add: unary_machine_def)
  then have "run unary_machine 10 =
               run_loop (fst (step unary_machine)) (snd (step unary_machine)) 10"
    unfolding run_def by (rule run_loop_go)
  also have "\<dots> = (fst (step unary_machine), snd (step unary_machine))"
    by (rule run_loop_halted) (simp add: unary_step)
  finally show ?thesis by (simp add: unary_step)
qed

section \<open>The unary scenario\<close>

text \<open>
  Claim C1, as the specification states it: the unary machine, constructed on the input
  \<open>111\<close> and run with \<open>max_steps = 10\<close>, returns ACCEPT with \<open>step_count = 3\<close>.
  The code does not do that. The first \<open>step\<close> applies the transition, enters \<open>q0\<close>
  again, and \<open>q0\<close> is accepting: the check after the transition returns ACCEPT, and the
  loop of \<open>run\<close> stops with \<open>step_count = 1\<close>.
\<close>

theorem unary_run_not_three:
  "MTM_init [''q0''] [''1''] [''1'', ''_''] ''_'' unary_transitions ''q0'' [''q0''] None 1
     (Some [''111'']) = Inr unary_machine \<and>
   \<not> (fst (run unary_machine 10) = ACCEPT \<and> step_count (snd (run unary_machine 10)) = 3)"
  by (simp add: unary_construction unary_run)

text \<open>
  Claim C1, amended: the unary machine, constructed on the input \<open>111\<close> and run with
  \<open>max_steps = 10\<close>, returns ACCEPT and leaves \<open>step_count = 1\<close>.
\<close>

theorem unary_run_accepts_after_one:
  "MTM_init [''q0''] [''1''] [''1'', ''_''] ''_'' unary_transitions ''q0'' [''q0''] None 1
     (Some [''111'']) = Inr unary_machine \<and>
   fst (run unary_machine 10) = ACCEPT \<and> step_count (snd (run unary_machine 10)) = 1"
  by (simp add: unary_construction unary_run)

section \<open>Sparsity of the cells\<close>

text \<open>
  Claim C2 says that no stored cell ever holds the blank. The code stores one in two
  ways. \<open>Tape_write\<close> removes the entry only when the symbol is the blank and the head
  has an entry; a blank written on a cell without an entry takes the other branch and
  is stored. The constructor stores every character of the input, a blank too. Both are
  evaluated here on the blank \<open>_\<close>: position 0 holds the blank after writing it on
  the empty tape, and after constructing the tape from the input \<open>_\<close>.
\<close>

theorem write_blank_on_unwritten_cell_stores_blank:
  "cells (Tape_write (Tape_init ''_'' []) ''_'') 0 = Some ''_'' \<and>
   tape.blank (Tape_write (Tape_init ''_'' []) ''_'') = ''_'' \<and>
   cells (Tape_init ''_'' ''_'') 0 = Some ''_'' \<and>
   tape.blank (Tape_init ''_'' ''_'') = ''_''"
  by (simp add: Tape_write_def Tape_init_def)

section \<open>A step without a transition\<close>

text \<open>
  Claim C3: when the key (current state, symbols read) has no transition, \<open>step\<close>
  returns ACCEPT if the current state is accepting, otherwise REJECT if it is rejecting,
  otherwise HALT, and the machine it leaves is the machine it found: state, step count
  and every tape are unchanged. \<open>step\<close> has no raising branch, so its model has no error
  result.
\<close>

theorem step_undefined_transition:
  assumes "transitions m (current_state m, map Tape_read (tapes m)) = None"
  shows "step m =
           (if current_state m \<in> accept_states m then ACCEPT
            else if current_state m \<in> reject_states m then REJECT
            else HALT, m)"
  using assms by (simp add: step_def)

theorem step_undefined_transition_witness:
  "transitions halt_machine
     (current_state halt_machine, map Tape_read (tapes halt_machine)) = None \<and>
   step halt_machine = (HALT, halt_machine) \<and> step_count halt_machine = 0"
proof -
  have u: "transitions halt_machine
             (current_state halt_machine, map Tape_read (tapes halt_machine)) = None"
    by (simp add: halt_machine_def)
  have "current_state halt_machine \<notin> accept_states halt_machine"
    and "current_state halt_machine \<notin> reject_states halt_machine"
    by (simp_all add: halt_machine_def)
  with step_undefined_transition [OF u] u show ?thesis
    by (simp add: halt_machine_def)
qed

section \<open>Acceptance before rejection\<close>

text \<open>
  Claim C5: for a state \<open>s\<close> that is both accepting and rejecting, \<open>step\<close> returns
  ACCEPT when \<open>s\<close> is the state it checks: the current state when the key has no
  transition, the new state when a transition is applied.
\<close>

theorem accept_before_reject:
  assumes "s \<in> accept_states m" and "s \<in> reject_states m"
  shows "(transitions m (current_state m, map Tape_read (tapes m)) = None \<longrightarrow>
            current_state m = s \<longrightarrow> fst (step m) = ACCEPT) \<and>
         (\<forall>ws mvs. transitions m (current_state m, map Tape_read (tapes m)) = Some (s, ws, mvs) \<longrightarrow>
            fst (step m) = ACCEPT \<and> current_state (snd (step m)) = s)"
  using assms by (auto simp: step_def Let_def)

theorem accept_before_reject_witness:
  "''qx'' \<in> accept_states both_machine \<and> ''qx'' \<in> reject_states both_machine \<and>
   fst (step both_machine) = ACCEPT \<and>
   current_state (snd (step both_machine)) = ''qx'' \<and>
   fst (step (snd (step both_machine))) = ACCEPT"
proof -
  have a: "''qx'' \<in> accept_states both_machine" and r: "''qx'' \<in> reject_states both_machine"
    by (simp_all add: both_machine_def)
  have t: "transitions both_machine
             (current_state both_machine, map Tape_read (tapes both_machine)) =
           Some (''qx'', [''1''], [1])"
    by (simp add: both_machine_def Tape_read_def Tape_init_def)
  from accept_before_reject [OF a r] t
  have 1: "fst (step both_machine) = ACCEPT \<and> current_state (snd (step both_machine)) = ''qx''"
    by blast
  let ?m = "snd (step both_machine)"
  have m: "?m = both_machine\<lparr>tapes := [Tape_move (Tape_init ''_'' ''1'') 1],
                               current_state := ''qx'', step_count := 1\<rparr>"
    by (simp add: step_def both_machine_def Tape_init_def Tape_read_def Tape_write_def
        Tape_move_def Let_def)
  have a': "''qx'' \<in> accept_states ?m" and r': "''qx'' \<in> reject_states ?m"
    by (simp_all add: m) (simp_all add: both_machine_def)
  have u: "transitions ?m (current_state ?m, map Tape_read (tapes ?m)) = None"
    by (simp add: m) (simp add: both_machine_def)
  have c: "current_state ?m = ''qx''"
    using 1 by simp
  from accept_before_reject [OF a' r'] u c have "fst (step ?m) = ACCEPT"
    by blast
  with a r 1 show ?thesis by simp
qed

section \<open>The run loop under a budget\<close>

text \<open>
  \<open>continues\<close> is exactly the condition under which \<open>step\<close> returns RUNNING, and such
  a step counts.
\<close>

lemma continues_iff: "continues m \<longleftrightarrow> fst (step m) = RUNNING"
  by (auto simp: continues_def step_def Let_def split: option.splits)

lemma step_RUNNING_count:
  "fst (step m) = RUNNING \<Longrightarrow> step_count (snd (step m)) = step_count m + 1"
  by (auto simp: step_def Let_def split: option.splits if_splits)

lemma run_loop_continuing:
  "(\<forall>j. continues (after_steps j m)) \<Longrightarrow> nat (n - step_count m) = d \<Longrightarrow> step_count m \<le> n \<Longrightarrow>
   fst (run_loop RUNNING m n) = RUNNING \<and> step_count (snd (run_loop RUNNING m n)) = n"
proof (induction d arbitrary: m)
  case 0
  then have "\<not> step_count m < n" by simp
  then have "run_loop RUNNING m n = (RUNNING, m)" by (rule run_loop_budget)
  with 0 show ?case by simp
next
  case (Suc d)
  let ?m = "snd (step m)"
  from Suc.prems have less: "step_count m < n" by simp
  from Suc.prems(1) have "continues (after_steps 0 m)" by blast
  then have running: "fst (step m) = RUNNING" by (simp add: continues_iff)
  then have count: "step_count ?m = step_count m + 1" by (rule step_RUNNING_count)
  have "\<forall>j. continues (after_steps j ?m)"
  proof
    fix j
    from Suc.prems(1) have "continues (after_steps (Suc j) m)" by blast
    then show "continues (after_steps j ?m)" by simp
  qed
  moreover from Suc.prems count have "nat (n - step_count ?m) = d" by simp
  moreover from less count have "step_count ?m \<le> n" by simp
  ultimately have "fst (run_loop RUNNING ?m n) = RUNNING \<and>
                   step_count (snd (run_loop RUNNING ?m n)) = n"
    by (rule Suc.IH)
  moreover have "run_loop RUNNING m n = run_loop RUNNING ?m n"
    using run_loop_go [OF less] running by simp
  ultimately show ?case by simp
qed

lemma MTM_init_count:
  "MTM_init sts ia ta b tr q0 acc rej k ins = Inr m \<Longrightarrow> step_count m = 0"
  by (auto simp: MTM_init_def Let_def split: if_splits)

text \<open>
  Claim C4: for every \<open>n \<ge> 0\<close> and every freshly constructed machine in which every
  step reached finds a transition whose new state is neither accepting nor rejecting,
  \<open>run\<close> with \<open>max_steps = n\<close> returns RUNNING with \<open>step_count = n\<close>.
\<close>

theorem run_exhausts_budget:
  assumes "MTM_init sts ia ta b tr q0 acc rej k ins = Inr m"
    and "0 \<le> n"
    and "\<forall>j. continues (after_steps j m)"
  shows "fst (run m n) = RUNNING \<and> step_count (snd (run m n)) = n"
proof -
  from assms(1) have "step_count m = 0" by (rule MTM_init_count)
  with assms(2) have "step_count m \<le> n" by simp
  with assms(3) show ?thesis
    unfolding run_def by (intro run_loop_continuing [where d = "nat (n - step_count m)"]) simp_all
qed

text \<open>
  The looping machine of the fifth scenario satisfies the hypothesis: a step changes
  nothing but the counter.
\<close>

lemma loop_construction:
  "MTM_init [''q0''] [''1''] [''1'', ''_''] ''_'' loop_transitions ''q0'' [] None 1 (Some [''1''])
   = Inr loop_machine"
  by (simp add: MTM_init_def loop_machine_def)

lemma loop_step:
  "step (loop_machine\<lparr>step_count := c\<rparr>) = (RUNNING, loop_machine\<lparr>step_count := c + 1\<rparr>)"
  by (simp add: step_def loop_machine_def loop_transitions_def Tape_init_def Tape_read_def
      Tape_write_def Tape_move_def Let_def)

lemma loop_after_steps:
  "after_steps j (loop_machine\<lparr>step_count := c\<rparr>) = loop_machine\<lparr>step_count := c + int j\<rparr>"
  by (induction j arbitrary: c) (simp_all add: loop_step add.assoc)

lemma loop_continues: "continues (after_steps j loop_machine)"
proof -
  have "loop_machine = loop_machine\<lparr>step_count := 0\<rparr>"
    by (simp add: loop_machine_def)
  then have "after_steps j loop_machine = loop_machine\<lparr>step_count := 0 + int j\<rparr>"
    using loop_after_steps [of j 0] by simp
  then show ?thesis by (simp add: continues_iff loop_step)
qed

theorem run_exhausts_budget_witness:
  "MTM_init [''q0''] [''1''] [''1'', ''_''] ''_'' loop_transitions ''q0'' [] None 1 (Some [''1''])
   = Inr loop_machine \<and>
   fst (run loop_machine 5) = RUNNING \<and> step_count (snd (run loop_machine 5)) = 5"
proof -
  have "\<forall>j. continues (after_steps j loop_machine)"
    by (simp add: loop_continues)
  with run_exhausts_budget [OF loop_construction, of 5] loop_construction show ?thesis
    by simp
qed

section \<open>Tuples shorter than the number of tapes\<close>

text \<open>
  Claim C9: when the transition found has a write tuple or a move tuple shorter than the
  list of tapes, \<open>step\<close> still returns a status, sets the new state and adds one to
  \<open>step_count\<close>. Tape \<open>i\<close> is written only if the write tuple has an entry \<open>i\<close> and
  moved only if the move tuple has one: beyond the write tuple the cells are unchanged,
  beyond the move tuple the head is unchanged, and entries beyond the last tape are not
  used, the number of tapes being unchanged. The statement holds for tuples of any
  length. \<open>step\<close> has no raising branch, so its model has no error result.
\<close>

theorem step_short_tuples:
  assumes "transitions m (current_state m, map Tape_read (tapes m)) = Some (q', ws, mvs)"
  shows "fst (step m) =
           (if q' \<in> accept_states m then ACCEPT
            else if q' \<in> reject_states m then REJECT else RUNNING) \<and>
         current_state (snd (step m)) = q' \<and>
         step_count (snd (step m)) = step_count m + 1 \<and>
         length (tapes (snd (step m))) = length (tapes m) \<and>
         (\<forall>i < length (tapes m).
            tapes (snd (step m)) ! i =
              (let t = tapes m ! i;
                   t' = (if i < length ws then Tape_write t (ws ! i) else t)
               in if i < length mvs then Tape_move t' (mvs ! i) else t') \<and>
            (length ws \<le> i \<longrightarrow> cells (tapes (snd (step m)) ! i) = cells (tapes m ! i)) \<and>
            (length mvs \<le> i \<longrightarrow> head (tapes (snd (step m)) ! i) = head (tapes m ! i)))"
proof -
  let ?m' = "m\<lparr>tapes := move_all (write_all (tapes m) ws) mvs,
                 current_state := q', step_count := step_count m + 1\<rparr>"
  from assms have s: "snd (step m) = ?m'"
    by (simp add: step_def Let_def)
  from assms have f: "fst (step m) =
           (if q' \<in> accept_states m then ACCEPT
            else if q' \<in> reject_states m then REJECT else RUNNING)"
    by (simp add: step_def Let_def)
  have t: "tapes (snd (step m)) ! i =
              (let t = tapes m ! i;
                   t' = (if i < length ws then Tape_write t (ws ! i) else t)
               in if i < length mvs then Tape_move t' (mvs ! i) else t')"
    if "i < length (tapes m)" for i
    using that by (simp add: s nth_move_all nth_write_all length_write_all Let_def)
  have c: "cells (tapes (snd (step m)) ! i) = cells (tapes m ! i)"
    if "i < length (tapes m)" "length ws \<le> i" for i
    using that by (simp add: t Let_def Tape_move_def)
  have h: "head (tapes (snd (step m)) ! i) = head (tapes m ! i)"
    if "i < length (tapes m)" "length mvs \<le> i" for i
    using that by (simp add: t Let_def Tape_write_def)
  from f t c h show ?thesis
    by (simp add: s length_move_all length_write_all)
qed

theorem step_short_tuples_witness:
  "transitions short_machine
     (current_state short_machine, map Tape_read (tapes short_machine)) =
     Some (''q1'', [''b''], [1]) \<and>
   fst (step short_machine) = RUNNING \<and>
   current_state (snd (step short_machine)) = ''q1'' \<and>
   step_count (snd (step short_machine)) = 1 \<and>
   length (tapes (snd (step short_machine))) = 2 \<and>
   cells (tapes (snd (step short_machine)) ! 0) 0 = Some ''b'' \<and>
   head (tapes (snd (step short_machine)) ! 0) = 1 \<and>
   tapes (snd (step short_machine)) ! 1 = Tape_init ''_'' ''b''"
proof -
  have k: "transitions short_machine
             (current_state short_machine, map Tape_read (tapes short_machine)) =
           Some (''q1'', [''b''], [1])"
    by (simp add: short_machine_def Tape_read_def Tape_init_def)
  have l: "tapes short_machine = [Tape_init ''_'' ''a'', Tape_init ''_'' ''b'']"
    by (simp add: short_machine_def)
  have e: "accept_states short_machine = {}" "reject_states short_machine = {}"
    "step_count short_machine = 0"
    by (simp_all add: short_machine_def)
  note r = step_short_tuples [OF k]
  from r have "tapes (snd (step short_machine)) ! 0 =
                 Tape_move (Tape_write (Tape_init ''_'' ''a'') ''b'') 1"
    by (simp add: l)
  moreover from r have "tapes (snd (step short_machine)) ! 1 = Tape_init ''_'' ''b''"
    by (simp add: l)
  ultimately show ?thesis
    using r k by (simp add: l e Tape_move_def Tape_write_def Tape_init_def)
qed

section \<open>Reset\<close>

lemma Tape_init_cells:
  "cells (Tape_init b s) p = (if 0 \<le> p \<and> p < int (length s) then Some [s ! nat p] else None)"
  by (simp add: Tape_init_def fill_cells_lookup)

text \<open>
  Claim C6: from any machine, \<open>reset\<close> with a sequence of \<open>num_tapes\<close> inputs returns
  normally, sets \<open>step_count\<close> to 0 and \<open>current_state\<close> to \<open>start_state\<close>, replaces
  the tapes by fresh ones built from the inputs (head at 0, character \<open>p\<close> of the input
  in cell \<open>p\<close>, no other cell), and leaves \<open>states\<close>, the alphabets, \<open>blank\<close>,
  \<open>transitions\<close>, \<open>start_state\<close>, \<open>accept_states\<close>, \<open>reject_states\<close> and
  \<open>num_tapes\<close> as they were.
\<close>

theorem reset_reinitialises:
  assumes "int (length inputs) = num_tapes m"
  shows "\<exists>m'. reset m (Some inputs) = (None, m') \<and>
           step_count m' = 0 \<and> current_state m' = start_state m \<and>
           tapes m' = map (Tape_init (machine.blank m)) inputs \<and>
           (\<forall>i < length inputs.
              head (tapes m' ! i) = 0 \<and>
              (\<forall>p. cells (tapes m' ! i) p =
                     (if 0 \<le> p \<and> p < int (length (inputs ! i))
                      then Some [inputs ! i ! nat p] else None))) \<and>
           states m' = states m \<and> input_alphabet m' = input_alphabet m \<and>
           tape_alphabet m' = tape_alphabet m \<and> machine.blank m' = machine.blank m \<and>
           transitions m' = transitions m \<and> start_state m' = start_state m \<and>
           accept_states m' = accept_states m \<and> reject_states m' = reject_states m \<and>
           num_tapes m' = num_tapes m"
  using assms by (simp add: reset_def Tape_init_cells) (simp add: Tape_init_def)

theorem reset_reinitialises_witness:
  "int (length [''ab'', '''']) = num_tapes (snd (step short_machine)) \<and>
   step_count (snd (step short_machine)) = 1 \<and>
   fst (reset (snd (step short_machine)) (Some [''ab'', ''''])) = None \<and>
   step_count (snd (reset (snd (step short_machine)) (Some [''ab'', '''']))) = 0 \<and>
   current_state (snd (reset (snd (step short_machine)) (Some [''ab'', '''']))) = ''q0'' \<and>
   tapes (snd (reset (snd (step short_machine)) (Some [''ab'', '''']))) =
     [Tape_init ''_'' ''ab'', Tape_init ''_'' '''']"
proof -
  have s: "snd (step short_machine) =
             short_machine\<lparr>tapes := [Tape_move (Tape_write (Tape_init ''_'' ''a'') ''b'') 1,
                                     Tape_init ''_'' ''b''],
                            current_state := ''q1'', step_count := 1\<rparr>"
    by (simp add: step_def short_machine_def Tape_read_def Tape_init_def Let_def)
  have n: "int (length [''ab'', '''']) = num_tapes (snd (step short_machine))"
    by (simp add: s) (simp add: short_machine_def)
  have "start_state (snd (step short_machine)) = ''q0''"
    and "machine.blank (snd (step short_machine)) = ''_''"
    and "step_count (snd (step short_machine)) = 1"
    by (simp_all add: s) (simp_all add: short_machine_def)
  with reset_reinitialises [OF n] n show ?thesis
    by auto
qed

text \<open>
  Claim C7: a sequence of initial inputs whose length differs from \<open>num_tapes\<close> makes
  both the constructor and \<open>reset\<close> raise ValueError; neither builds tapes from a
  truncated or padded sequence.
\<close>

theorem length_mismatch_raises:
  "(int (length inputs) \<noteq> k \<longrightarrow>
      MTM_init sts ia ta b tr q0 acc rej k (Some inputs) = Inl ValueError) \<and>
   (int (length inputs) \<noteq> num_tapes m \<longrightarrow>
      fst (reset m (Some inputs)) = Some ValueError)"
  by (simp add: MTM_init_def reset_def)

theorem length_mismatch_raises_witness:
  "MTM_init [''q0''] [''1''] [''1'', ''_''] ''_'' unary_transitions ''q0'' [''q0''] None 1
     (Some [''1'', ''1'']) = Inl ValueError \<and>
   fst (reset unary_machine (Some [''1'', ''1''])) = Some ValueError \<and>
   MTM_init [''q0''] [''1''] [''1'', ''_''] ''_'' unary_transitions ''q0'' [''q0''] None 1
     (Some []) = Inl ValueError \<and>
   fst (reset unary_machine (Some [])) = Some ValueError"
proof -
  have n: "num_tapes unary_machine = 1"
    by (simp add: unary_machine_def)
  have "int (length [''1'', ''1'']) \<noteq> 1" and "int (length ([] :: string list)) \<noteq> 1"
    by simp_all
  with n
    length_mismatch_raises [of "[''1'', ''1'']" 1 "[''q0'']" "[''1'']" "[''1'', ''_'']" "''_''"
      unary_transitions "''q0''" "[''q0'']" None unary_machine]
    length_mismatch_raises [of "[]" 1 "[''q0'']" "[''1'']" "[''1'', ''_'']" "''_''"
      unary_transitions "''q0''" "[''q0'']" None unary_machine]
  show ?thesis by simp
qed

text \<open>
  Claim C10: a \<open>reset\<close> called with a sequence whose length differs from \<open>num_tapes\<close>
  raises and leaves the machine as it was: tapes, \<open>current_state\<close> and \<open>step_count\<close>
  keep their values.
\<close>

theorem failed_reset_is_atomic:
  assumes "int (length inputs) \<noteq> num_tapes m"
  shows "reset m (Some inputs) = (Some ValueError, m)"
  using assms by (simp add: reset_def)

theorem failed_reset_is_atomic_witness:
  "int (length [''x'']) \<noteq> num_tapes (snd (step short_machine)) \<and>
   step_count (snd (step short_machine)) = 1 \<and>
   reset (snd (step short_machine)) (Some [''x'']) = (Some ValueError, snd (step short_machine))"
proof -
  have s: "snd (step short_machine) =
             short_machine\<lparr>tapes := [Tape_move (Tape_write (Tape_init ''_'' ''a'') ''b'') 1,
                                     Tape_init ''_'' ''b''],
                            current_state := ''q1'', step_count := 1\<rparr>"
    by (simp add: step_def short_machine_def Tape_read_def Tape_init_def Let_def)
  have n: "int (length [''x'']) \<noteq> num_tapes (snd (step short_machine))"
    by (simp add: s) (simp add: short_machine_def)
  have "step_count (snd (step short_machine)) = 1"
    by (simp add: s)
  with failed_reset_is_atomic [OF n] n show ?thesis
    by simp
qed

section \<open>Determinism of a run after reset\<close>

text \<open>
  A step changes only the tapes, the current state and the counter, and \<open>reset\<close>
  overwrites exactly these three: whatever the machine has done before, a successful
  \<open>reset\<close> gives the machine that the constructor builds from the same inputs.
\<close>

lemma step_changes_only_run_state:
  "\<exists>T Q C. snd (step m) = m\<lparr>tapes := T, current_state := Q, step_count := C\<rparr>"
proof (cases "transitions m (current_state m, map Tape_read (tapes m))")
  case None
  then have "snd (step m) = m\<lparr>tapes := tapes m, current_state := current_state m,
                               step_count := step_count m\<rparr>"
    by (simp add: step_def)
  then show ?thesis by blast
next
  case (Some v)
  obtain q' ws mvs where "v = (q', ws, mvs)" by (cases v)
  with Some have "snd (step m) = m\<lparr>tapes := move_all (write_all (tapes m) ws) mvs,
                                    current_state := q', step_count := step_count m + 1\<rparr>"
    by (simp add: step_def Let_def)
  then show ?thesis by blast
qed

lemma after_steps_changes_only_run_state:
  "\<exists>T Q C. after_steps j m = m\<lparr>tapes := T, current_state := Q, step_count := C\<rparr>"
proof (induction j arbitrary: m)
  case 0
  have "after_steps 0 m = m\<lparr>tapes := tapes m, current_state := current_state m,
                             step_count := step_count m\<rparr>"
    by simp
  then show ?case by blast
next
  case (Suc j)
  obtain T Q C where "snd (step m) = m\<lparr>tapes := T, current_state := Q, step_count := C\<rparr>"
    using step_changes_only_run_state [of m] by blast
  moreover obtain T' Q' C' where
    "after_steps j (snd (step m)) =
       (snd (step m))\<lparr>tapes := T', current_state := Q', step_count := C'\<rparr>"
    using Suc.IH [of "snd (step m)"] by blast
  ultimately have "after_steps (Suc j) m =
                     m\<lparr>tapes := T', current_state := Q', step_count := C'\<rparr>"
    by simp
  then show ?case by blast
qed

lemma map_over_indices: "int (length xs) = k \<Longrightarrow> map (\<lambda>i. f (xs ! i)) [0 ..< nat k] = map f xs"
  by (auto simp: list_eq_iff_nth_eq)

lemma reset_is_construction:
  assumes "MTM_init sts ia ta b tr q0 acc rej k ins0 = Inr a"
    and "fst (reset (a\<lparr>tapes := T, current_state := Q, step_count := C\<rparr>) ins) = None"
  shows "MTM_init sts ia ta b tr q0 acc rej k ins =
           Inr (snd (reset (a\<lparr>tapes := T, current_state := Q, step_count := C\<rparr>) ins))"
proof (cases ins)
  case None
  with assms show ?thesis
    by (auto simp: MTM_init_def reset_def Let_def map_replicate_const map_over_indices
        split: if_splits)
next
  case (Some xs)
  with assms show ?thesis
    by (auto simp: MTM_init_def reset_def Let_def map_over_indices split: if_splits)
qed

lemma MTM_init_num_tapes:
  "MTM_init sts ia ta b tr q0 acc rej k ins = Inr m \<Longrightarrow> num_tapes m = k"
  by (auto simp: MTM_init_def Let_def split: if_splits)

lemma reset_check:
  "fst (reset m ins) =
     (if int (length (case ins of None \<Rightarrow> map (\<lambda>_. []) [0 ..< nat (num_tapes m)]
                                | Some xs \<Rightarrow> xs)) \<noteq> num_tapes m
      then Some ValueError else None)"
  by (simp add: reset_def Let_def)

lemma reset_check_same:
  assumes "MTM_init sts ia ta b tr q0 acc rej k ins1 = Inr a"
    and "MTM_init sts ia ta b tr q0 acc rej k ins2 = Inr c"
  shows "fst (reset (a\<lparr>tapes := T, current_state := Q, step_count := C\<rparr>) ins) =
         fst (reset (c\<lparr>tapes := T', current_state := Q', step_count := C'\<rparr>) ins)"
  using MTM_init_num_tapes [OF assms(1)] MTM_init_num_tapes [OF assms(2)]
  by (cases ins) (simp_all add: reset_check)

text \<open>
  Claim C8: take two machines constructed with the same parameters, on any initial
  inputs, and stepped any number of times. When both are reset with the same inputs and
  run with the same \<open>max_steps\<close>, the two runs return the same classification and the
  same \<open>step_count\<close>; the reset machine is the one a fresh construction on these
  inputs gives.
\<close>

theorem run_after_reset_deterministic:
  assumes "MTM_init sts ia ta b tr q0 acc rej k ins1 = Inr a"
    and "MTM_init sts ia ta b tr q0 acc rej k ins2 = Inr c"
    and "fst (reset (after_steps j1 a) ins) = None"
  shows "fst (reset (after_steps j2 c) ins) = None \<and>
         MTM_init sts ia ta b tr q0 acc rej k ins = Inr (snd (reset (after_steps j1 a) ins)) \<and>
         fst (run (snd (reset (after_steps j1 a) ins)) n) =
           fst (run (snd (reset (after_steps j2 c) ins)) n) \<and>
         step_count (snd (run (snd (reset (after_steps j1 a) ins)) n)) =
           step_count (snd (run (snd (reset (after_steps j2 c) ins)) n))"
proof -
  from after_steps_changes_only_run_state [of j1 a]
  obtain T Q C where a: "after_steps j1 a = a\<lparr>tapes := T, current_state := Q, step_count := C\<rparr>"
    by blast
  from after_steps_changes_only_run_state [of j2 c]
  obtain T' Q' C' where
    c: "after_steps j2 c = c\<lparr>tapes := T', current_state := Q', step_count := C'\<rparr>"
    by blast
  from assms(3) have ok1: "fst (reset (a\<lparr>tapes := T, current_state := Q, step_count := C\<rparr>) ins) = None"
    by (simp add: a)
  with reset_check_same [OF assms(1) assms(2),
      where T = T and Q = Q and C = C and ins = ins and T' = T' and Q' = Q' and C' = C']
  have ok2: "fst (reset (c\<lparr>tapes := T', current_state := Q', step_count := C'\<rparr>) ins) = None"
    by simp
  have "MTM_init sts ia ta b tr q0 acc rej k ins = Inr (snd (reset (after_steps j1 a) ins))"
    using reset_is_construction [OF assms(1) ok1] by (simp add: a)
  moreover have "MTM_init sts ia ta b tr q0 acc rej k ins = Inr (snd (reset (after_steps j2 c) ins))"
    using reset_is_construction [OF assms(2) ok2] by (simp add: c)
  ultimately have "snd (reset (after_steps j1 a) ins) = snd (reset (after_steps j2 c) ins)"
    and "MTM_init sts ia ta b tr q0 acc rej k ins = Inr (snd (reset (after_steps j1 a) ins))"
    by simp_all
  with ok2 show ?thesis by (simp add: c)
qed

theorem run_after_reset_deterministic_witness:
  "fst (reset (after_steps (Suc 0) unary_machine) (Some [''11''])) = None \<and>
   fst (reset (after_steps 0 (unary_machine\<lparr>tapes := [Tape_init ''_'' ''1'']\<rparr>))
          (Some [''11''])) = None \<and>
   fst (run (snd (reset (after_steps (Suc 0) unary_machine) (Some [''11'']))) 10) =
     fst (run (snd (reset (after_steps 0 (unary_machine\<lparr>tapes := [Tape_init ''_'' ''1'']\<rparr>))
                     (Some [''11'']))) 10) \<and>
   step_count (snd (run (snd (reset (after_steps (Suc 0) unary_machine) (Some [''11'']))) 10)) =
     step_count
       (snd (run (snd (reset (after_steps 0 (unary_machine\<lparr>tapes := [Tape_init ''_'' ''1'']\<rparr>))
                         (Some [''11'']))) 10))"
proof -
  have c: "MTM_init [''q0''] [''1''] [''1'', ''_''] ''_'' unary_transitions ''q0'' [''q0''] None 1
             (Some [''1'']) = Inr (unary_machine\<lparr>tapes := [Tape_init ''_'' ''1'']\<rparr>)"
    by (simp add: MTM_init_def unary_machine_def)
  from step_changes_only_run_state [of unary_machine]
  have "num_tapes (after_steps (Suc 0) unary_machine) = num_tapes unary_machine"
    by auto
  then have "num_tapes (after_steps (Suc 0) unary_machine) = 1"
    by (simp add: unary_machine_def)
  then have ok: "fst (reset (after_steps (Suc 0) unary_machine) (Some [''11''])) = None"
    by (simp add: reset_check)
  from run_after_reset_deterministic [OF unary_construction c ok, of 0 10] ok
  show ?thesis by simp
qed

end
